theory Spec2Isabelle
  imports Main "HOL-Library.Sublist"
begin

section \<open>The paramiko connection plugin: data model\<close>

text \<open>
  The embedded source is \<^verbatim>\<open>lib/ansible/runner/connection_plugins/paramiko_ssh.py\<close>.
  Python strings are \<^typ>\<open>string\<close>; an exception is a value of \<open>error\<close>; the two
  module-level dictionaries and everything else the methods mutate live in a record
  that every operation takes and returns.
\<close>

datatype error =
    AnsibleError string
  | AnsibleConnectionFailed string
  | AnsibleFileNotFound string
  | IOError string
  | OSError string
  | ValueError string
  | AttributeError string
  | LibraryError string

text \<open>
  \<^verbatim>\<open>def _cache_key(self): return "%s__%s__" % (self.host, self.user)\<close>
\<close>

definition cache_key_of :: "string \<Rightarrow> string \<Rightarrow> string" where
  "cache_key_of h u = h @ ''__'' @ u @ ''__''"


section \<open>Host keys and the client objects\<close>

text \<open>
  A key object of the transport library, as far as the plugin reads it: its base64
  text (\<^verbatim>\<open>key.get_base64()\<close>) and the attribute \<^verbatim>\<open>_added_by_ansible_this_time\<close>,
  which only \<^verbatim>\<open>MyAutoAddPolicy.missing_host_key\<close> sets; \<^verbatim>\<open>getattr(key, ..., False)\<close> reads
  False on every other key.
\<close>

record pkey =
  get_base64 :: string
  added_by_ansible_this_time :: bool

text \<open>
  The library's \<^verbatim>\<open>HostKeys\<close> mapping in the order \<^verbatim>\<open>iteritems()\<close> walks it: hostname to
  (key type to key). The iteration order is the library's; the plugin only walks it.
\<close>

type_synonym key_entry = "(string \<times> pkey) list"
type_synonym host_keys = "(string \<times> key_entry) list"

text \<open>
  What the remote side and the library answer. \<open>handshake_result\<close> is how \<^verbatim>\<open>ssh.connect\<close>
  ends: an exception with its message, success with a host key the client already trusts,
  or success after the policy object was asked about an unseen key of the given type.
  \<open>recv\<close> is one answer of \<^verbatim>\<open>chan.recv(bufsize)\<close>: bytes (none when the stream is closed) or
  \<^verbatim>\<open>socket.timeout\<close>. A \<open>channel\<close> is what one opened session will deliver.
\<close>

datatype handshake_result = HandshakeFails string | KeyKnown | KeyUnseen string pkey

datatype recv = Recv string | RecvTimeout

record channel =
  recv_script :: "recv list"
  chan_stdout :: string
  chan_stderr :: string
  chan_exit_status :: int

record sshclient =
  host_keys :: host_keys
  system_host_keys :: host_keys
  host_keys_filename :: "string option"

datatype event =
    Vvv string
  | Handshake nat string string bool "string option"
  | OpenSession nat
  | GetPty string int int
  | ExecCommand string
  | Sendall string
  | OpenSftp nat nat
  | SftpPut nat string string
  | SftpGet nat string string
  | SftpClose nat
  | SshClose nat
  | Flock string bool
  | PrintExc error

text \<open>
  Everything the methods read or mutate: the two module-level caches, the heap of client
  objects (they are shared through the cache, so they are addressed by handle), the file
  system, and the trace of calls made to the transport library and the operating system.
  \<open>unwritable\<close>, \<open>unlockable\<close> and \<open>known_hosts_parser\<close> say how the operating system and the
  library answer: which paths refuse \<^verbatim>\<open>open(.., 'w')\<close> or \<^verbatim>\<open>makedirs\<close>, which lock files
  refuse an exclusive lock, and what the library's parser makes of the trust file's text
  (\<open>Inl\<close> the message of the exception it raises on an invalid key). \<open>handshake\<close>,
  \<open>open_session\<close>, \<open>open_sftp\<close> and \<open>sftp_transfer\<close> are the answers of the network
  (\<open>Inl\<close> or \<open>Some\<close>: the exception raised); \<open>pipes_quote\<close> and \<open>make_sudo_cmd\<close> are the two
  string helpers from outside this file, \<open>HAVE_PARAMIKO\<close> and \<open>HOST_KEY_CHECKING\<close> the two
  flags.
\<close>

record world =
  SSH_CONNECTION_CACHE :: "string \<rightharpoonup> nat"
  SFTP_CONNECTION_CACHE :: "string \<rightharpoonup> nat"
  clients :: "nat \<Rightarrow> sshclient"
  next_handle :: nat
  files :: "string \<rightharpoonup> string"
  dirs :: "string set"
  unwritable :: "string set"
  unlockable :: "string set"
  home :: string
  environ :: "string \<rightharpoonup> string"
  known_hosts_parser :: "string \<Rightarrow> string + (string \<times> (string \<times> string) list) list"
  HAVE_PARAMIKO :: bool
  HOST_KEY_CHECKING :: bool
  handshake :: "string \<Rightarrow> string \<Rightarrow> handshake_result"
  open_session :: "nat \<Rightarrow> string + channel"
  open_sftp :: "nat \<Rightarrow> string option"
  sftp_transfer :: "string \<Rightarrow> string \<Rightarrow> error option"
  pipes_quote :: "string \<Rightarrow> string"
  make_sudo_cmd :: "string \<Rightarrow> string \<Rightarrow> string \<Rightarrow> string \<times> string"
  trace :: "event list"

definition emit :: "event \<Rightarrow> world \<Rightarrow> world" where
  "emit e w = w\<lparr>trace := trace w @ [e]\<rparr>"

text \<open>\<^verbatim>\<open>os.path.exists\<close>, \<^verbatim>\<open>os.makedirs\<close>, \<^verbatim>\<open>open(path, 'w')\<close> and \<^verbatim>\<open>os.path.expanduser\<close> on a
  path of the form \<^verbatim>\<open>~/...\<close> (the only form the modelled calls pass).\<close>

definition path_exists :: "world \<Rightarrow> string \<Rightarrow> bool" where
  "path_exists w p = (files w p \<noteq> None \<or> p \<in> dirs w)"

definition makedirs :: "string \<Rightarrow> world \<Rightarrow> world \<times> (error + unit)" where
  "makedirs p w =
     (if p \<in> unwritable w then (w, Inl (OSError p))
      else (w\<lparr>dirs := insert p (dirs w)\<rparr>, Inr ()))"

definition open_w :: "string \<Rightarrow> world \<Rightarrow> world \<times> (error + unit)" where
  "open_w p w =
     (if p \<in> unwritable w then (w, Inl (IOError p))
      else (w\<lparr>files := (files w)(p \<mapsto> [])\<rparr>, Inr ()))"

definition expanduser :: "world \<Rightarrow> string \<Rightarrow> string" where
  "expanduser w p = (if prefix ''~/'' p \<or> p = ''~'' then home w @ tl p else p)"

subsection \<open>\<^verbatim>\<open>MyAutoAddPolicy.missing_host_key\<close>\<close>

text \<open>The library's \<^verbatim>\<open>HostKeys.add\<close> and \<^verbatim>\<open>__setitem__\<close>: a key type already listed for the
  hostname has its key replaced in place, a new one is appended.\<close>

fun setitem_key :: "string \<Rightarrow> pkey \<Rightarrow> key_entry \<Rightarrow> key_entry" where
  "setitem_key t k [] = [(t, k)]"
| "setitem_key t k ((t', k') # ks) =
     (if t' = t then (t, k) # ks else (t', k') # setitem_key t k ks)"

fun setitem_host :: "string \<Rightarrow> key_entry \<Rightarrow> host_keys \<Rightarrow> host_keys" where
  "setitem_host h entry [] = [(h, fold (\<lambda>(t, k). setitem_key t k) entry [])]"
| "setitem_host h entry ((h', ks) # hs) =
     (if h' = h then (h, fold (\<lambda>(t, k). setitem_key t k) entry ks) # hs
      else (h', ks) # setitem_host h entry hs)"

definition HostKeys_update :: "host_keys \<Rightarrow> host_keys \<Rightarrow> host_keys" where
  "HostKeys_update hk other = fold (\<lambda>(h, entry). setitem_host h entry) other hk"

text \<open>
  \<^verbatim>\<open>key._added_by_ansible_this_time = True\<close>
  \<^verbatim>\<open>client._host_keys.add(hostname, key.get_name(), key)\<close>
  \<^verbatim>\<open>if client._host_keys_filename is not None: client.save_host_keys(...)\<close>
  The last call is the library's own writer; it rewrites the named file from the client's
  keys, one line per key.
\<close>

definition key_line :: "string \<Rightarrow> string \<Rightarrow> pkey \<Rightarrow> string" where
  "key_line hostname keytype key =
     hostname @ '' '' @ keytype @ '' '' @ get_base64 key @ [CHR 0x0A]"

definition missing_host_key :: "nat \<Rightarrow> string \<Rightarrow> string \<Rightarrow> pkey \<Rightarrow> world \<Rightarrow> world" where
  "missing_host_key client hostname keytype key w =
     (let key' = key\<lparr>added_by_ansible_this_time := True\<rparr>;
          cl = clients w client;
          cl' = cl\<lparr>host_keys := setitem_host hostname [(keytype, key')] (host_keys cl)\<rparr>;
          w' = w\<lparr>clients := (clients w)(client := cl')\<rparr>
      in case host_keys_filename cl of
           None \<Rightarrow> w'
         | Some fn \<Rightarrow>
             w'\<lparr>files := (files w')(fn \<mapsto>
                  concat (map (\<lambda>(h, ks). concat (map (\<lambda>(t, k). key_line h t k) ks))
                              (host_keys cl')))\<rparr>)"

subsection \<open>\<^verbatim>\<open>_save_ssh_host_keys\<close>\<close>

text \<open>
  The first pair of loops: \<^verbatim>\<open>added_any\<close> becomes True at a tagged key, and \<^verbatim>\<open>break\<close> leaves
  the inner loop only.
\<close>

fun scan_keys :: "key_entry \<Rightarrow> bool \<Rightarrow> bool" where
  "scan_keys [] added_any = added_any"
| "scan_keys ((keytype, key) # ks) added_any =
     (if added_by_ansible_this_time key then True else scan_keys ks added_any)"

fun scan_hosts :: "host_keys \<Rightarrow> bool \<Rightarrow> bool" where
  "scan_hosts [] added_any = added_any"
| "scan_hosts ((hostname, keys) # hs) added_any = scan_hosts hs (scan_keys keys added_any)"

text \<open>
  The two pairs of writing loops: the first writes the keys that are not tagged, the second
  the tagged ones. \<open>flag\<close> is the value of \<^verbatim>\<open>added_this_time\<close> the pass writes; \<open>f\<close> is
  what has been written to the file so far.
\<close>

fun write_keys :: "bool \<Rightarrow> string \<Rightarrow> key_entry \<Rightarrow> string \<Rightarrow> string" where
  "write_keys flag hostname [] f = f"
| "write_keys flag hostname ((keytype, key) # ks) f =
     write_keys flag hostname ks
       (if added_by_ansible_this_time key = flag then f @ key_line hostname keytype key else f)"

fun write_hosts :: "bool \<Rightarrow> host_keys \<Rightarrow> string \<Rightarrow> string" where
  "write_hosts flag [] f = f"
| "write_hosts flag ((hostname, keys) # hs) f =
     write_hosts flag hs (write_keys flag hostname keys f)"

definition save_ssh_host_keys :: "host_keys \<Rightarrow> string \<Rightarrow> world \<Rightarrow> world \<times> (error + unit)" where
  "save_ssh_host_keys hk filename w =
     (if \<not> scan_hosts hk False then (w, Inr ())
      else
        let path = expanduser w ''~/.ssh'' in
        case (if \<not> path_exists w path then makedirs path w else (w, Inr ())) of
          (w1, Inl e) \<Rightarrow> (w1, Inl e)
        | (w1, Inr _) \<Rightarrow>
            (case open_w filename w1 of
               (w2, Inl e) \<Rightarrow> (w2, Inl e)
             | (w2, Inr _) \<Rightarrow>
                 (w2\<lparr>files := (files w2)(filename \<mapsto>
                        write_hosts True hk (write_hosts False hk []))\<rparr>, Inr ())))"

section \<open>The connection object\<close>

record runner =
  runner_private_key_file :: "string option"
  timeout :: nat
  sudo :: bool
  sudo_pass :: "string option"

text \<open>
  The attributes of \<^verbatim>\<open>Connection\<close>. \<^verbatim>\<open>__init__\<close> sets all but \<open>keyfile\<close>, which exists only
  once \<^verbatim>\<open>_connect_uncached\<close> has run on this object: \<open>None\<close> is the missing attribute.
  \<open>port\<close> is kept as its \<^verbatim>\<open>%s\<close> rendering.
\<close>

record connection =
  ssh :: "nat option"
  sftp :: "nat option"
  runner :: runner
  host :: string
  port :: string
  user :: string
  password :: "string option"
  private_key_file :: "string option"
  keyfile :: "string option"

definition init_connection ::
  "runner \<Rightarrow> string \<Rightarrow> string \<Rightarrow> string \<Rightarrow> string option \<Rightarrow> string option \<Rightarrow> connection" where
  "init_connection r h p u pw pk =
     \<lparr>ssh = None, sftp = None, runner = r, host = h, port = p, user = u,
      password = pw, private_key_file = pk, keyfile = None\<rparr>"

text \<open>Python's \<^verbatim>\<open>str.replace(old, new)\<close> for a non-empty \<open>old\<close>: every occurrence, leftmost
  first, without overlap.\<close>

function replace_str :: "string \<Rightarrow> string \<Rightarrow> string \<Rightarrow> string" where
  "replace_str old new [] = []"
| "replace_str old new (c # cs) =
     (if old \<noteq> [] \<and> prefix old (c # cs)
      then new @ replace_str old new (drop (length old) (c # cs))
      else c # replace_str old new cs)"
  by pat_completeness auto
termination
  by (relation "measure (\<lambda>(old, new, s). length s)") auto

subsection \<open>\<^verbatim>\<open>close\<close>\<close>

text \<open>
  The library's \<^verbatim>\<open>load_system_host_keys()\<close> with no file name: it reads
  \<^verbatim>\<open>~/.ssh/known_hosts\<close>, passes over a file it cannot read, and merges what the parser
  returns into the client's system keys. Keys made by the parser carry no tag.
\<close>

definition untagged :: "(string \<times> (string \<times> string) list) list \<Rightarrow> host_keys" where
  "untagged raw =
     map (\<lambda>(h, ks). (h, map (\<lambda>(t, b). (t, \<lparr>get_base64 = b, added_by_ansible_this_time = False\<rparr>)) ks)) raw"

definition load_system_host_keys :: "nat \<Rightarrow> world \<Rightarrow> world \<times> (error + unit)" where
  "load_system_host_keys h w =
     (case files w (expanduser w ''~/.ssh/known_hosts'') of
        None \<Rightarrow> (w, Inr ())
      | Some content \<Rightarrow>
          (case known_hosts_parser w content of
             Inl msg \<Rightarrow> (w, Inl (LibraryError msg))
           | Inr raw \<Rightarrow>
               (let cl = clients w h;
                    cl' = cl\<lparr>system_host_keys := HostKeys_update (system_host_keys cl) (untagged raw)\<rparr>
                in (w\<lparr>clients := (clients w)(h := cl')\<rparr>, Inr ()))))"

text \<open>\<^verbatim>\<open>fcntl.flock(KEY_LOCK, fcntl.LOCK_EX)\<close>\<close>

definition flock_ex :: "string \<Rightarrow> world \<Rightarrow> world \<times> (error + unit)" where
  "flock_ex p w =
     (if p \<in> unlockable w then (w, Inl (IOError p)) else (emit (Flock p True) w, Inr ()))"

text \<open>
  The body of the \<^verbatim>\<open>try\<close> in \<^verbatim>\<open>close\<close>:
  \<^verbatim>\<open>self.ssh.load_system_host_keys()\<close>
  \<^verbatim>\<open>self.ssh._host_keys.update(self.ssh._system_host_keys)\<close>
  \<^verbatim>\<open>self._save_ssh_host_keys(self.keyfile)\<close>
\<close>

definition close_try_body :: "connection \<Rightarrow> string \<Rightarrow> world \<Rightarrow> world \<times> (error + unit)" where
  "close_try_body self kf w =
     (case ssh self of
        None \<Rightarrow> (w, Inl (AttributeError ''load_system_host_keys''))
      | Some h \<Rightarrow>
          (case load_system_host_keys h w of
             (w1, Inl e) \<Rightarrow> (w1, Inl e)
           | (w1, Inr _) \<Rightarrow>
               (let cl = clients w1 h;
                    cl' = cl\<lparr>host_keys := HostKeys_update (host_keys cl) (system_host_keys cl)\<rparr>;
                    w2 = w1\<lparr>clients := (clients w1)(h := cl')\<rparr>
                in save_ssh_host_keys (host_keys cl') kf w2)))"

text \<open>
  \<^verbatim>\<open>close\<close>, in the three parts the source has. First the two \<^verbatim>\<open>pop(cache_key, None)\<close> and the
  close of the file-transfer handle.
\<close>

definition close_release :: "connection \<Rightarrow> world \<Rightarrow> world" where
  "close_release self w0 =
     (let cache_key = cache_key_of (host self) (user self);
          w1 = w0\<lparr>SSH_CONNECTION_CACHE := (SSH_CONNECTION_CACHE w0)(cache_key := None)\<rparr>;
          w2 = w1\<lparr>SFTP_CONNECTION_CACHE := (SFTP_CONNECTION_CACHE w1)(cache_key := None)\<rparr>
      in case sftp self of None \<Rightarrow> w2 | Some s \<Rightarrow> emit (SftpClose s) w2)"

text \<open>
  Last, with the lock held: the \<^verbatim>\<open>try\<close> whose bare \<^verbatim>\<open>except\<close> prints the traceback and passes,
  then \<^verbatim>\<open>fcntl.flock(KEY_LOCK, fcntl.LOCK_UN)\<close> and \<^verbatim>\<open>self.ssh.close()\<close>.
\<close>

definition close_locked :: "connection \<Rightarrow> string \<Rightarrow> string \<Rightarrow> world \<Rightarrow> world \<times> (error + unit)" where
  "close_locked self kf lockfile w5 =
     (let w6 = (case close_try_body self kf w5 of
                  (w', Inl e) \<Rightarrow> emit (PrintExc e) w'
                | (w', Inr _) \<Rightarrow> w');
          w7 = emit (Flock lockfile False) w6
      in case ssh self of
           None \<Rightarrow> (w7, Inl (AttributeError ''close''))
         | Some h \<Rightarrow> (emit (SshClose h) w7, Inr ()))"

text \<open>
  In between, before the \<^verbatim>\<open>try\<close>: \<^verbatim>\<open>self.keyfile.replace(...)\<close>, \<^verbatim>\<open>open(lockfile, 'w')\<close> and
  \<^verbatim>\<open>fcntl.flock(KEY_LOCK, fcntl.LOCK_EX)\<close>. An exception of one of the three leaves \<^verbatim>\<open>close\<close>.
\<close>

definition close :: "connection \<Rightarrow> world \<Rightarrow> world \<times> (error + unit)" where
  "close self w0 =
     (let w3 = close_release self w0 in
      case keyfile self of
        None \<Rightarrow> (w3, Inl (AttributeError ''keyfile''))
      | Some kf \<Rightarrow>
          (let lockfile = replace_str ''known_hosts'' ''.known_hosts.lock'' kf in
           case open_w lockfile w3 of
             (w4, Inl e) \<Rightarrow> (w4, Inl e)
           | (w4, Inr _) \<Rightarrow>
               (case flock_ex lockfile w4 of
                  (w5, Inl e) \<Rightarrow> (w5, Inl e)
                | (w5, Inr _) \<Rightarrow> close_locked self kf lockfile w5)))"

subsection \<open>\<^verbatim>\<open>connect\<close> and \<^verbatim>\<open>_connect_uncached\<close>\<close>

text \<open>\<^verbatim>\<open>str(e)\<close> of an exception.\<close>

fun str_of_error :: "error \<Rightarrow> string" where
  "str_of_error (AnsibleError m) = m"
| "str_of_error (AnsibleConnectionFailed m) = m"
| "str_of_error (AnsibleFileNotFound m) = m"
| "str_of_error (IOError m) = m"
| "str_of_error (OSError m) = m"
| "str_of_error (ValueError m) = m"
| "str_of_error (AttributeError m) = m"
| "str_of_error (LibraryError m) = m"

text \<open>A Python value used as a condition: \<^verbatim>\<open>None\<close> and the empty string are false.\<close>

definition truthy :: "string option \<Rightarrow> bool" where
  "truthy v = (case v of None \<Rightarrow> False | Some s \<Rightarrow> s \<noteq> [])"

definition connect_uncached :: "connection \<Rightarrow> world \<Rightarrow> connection \<times> world \<times> (error + nat)" where
  "connect_uncached self w =
     (if \<not> HAVE_PARAMIKO w then (self, w, Inl (AnsibleError ''paramiko is not installed''))
      else
        let w0 = emit (Vvv (''ESTABLISH CONNECTION FOR USER: '' @ user self @ '' on PORT '' @ port self
                            @ '' TO '' @ host self)) w;
            h = next_handle w0;
            w1 = w0\<lparr>next_handle := Suc h,
                    clients := (clients w0)(h := \<lparr>host_keys = [], system_host_keys = [],
                                                  host_keys_filename = None\<rparr>)\<rparr>;
            self1 = self\<lparr>keyfile := Some (expanduser w ''~/.ssh/known_hosts'')\<rparr>
        in case (if HOST_KEY_CHECKING w then load_system_host_keys h w1 else (w1, Inr ())) of
             (w2, Inl e) \<Rightarrow> (self1, w2, Inl e)
           | (w2, Inr _) \<Rightarrow>
               (let allow_agent = (password self = None);
                    key_filename =
                      (if truthy (private_key_file self)
                       then map_option (expanduser w) (private_key_file self)
                       else if truthy (runner_private_key_file (runner self))
                       then map_option (expanduser w) (runner_private_key_file (runner self))
                       else None);
                    w3 = emit (Handshake h (host self) (user self) allow_agent key_filename) w2
                in case handshake w (host self) (user self) of
                     HandshakeFails msg \<Rightarrow>
                       (self1, w3,
                        Inl (if sublist ''PID check failed'' msg
                             then AnsibleError
                               ''paramiko version issue, please upgrade paramiko on the machine running ansible''
                             else if sublist ''Private key file is encrypted'' msg
                             then AnsibleConnectionFailed
                               (''ssh '' @ user self @ ''@'' @ host self @ '':'' @ port self @ '' : '' @ msg
                                @ [CHR 0x0A] @ ''To connect as a different user, use -u <username>.'')
                             else AnsibleConnectionFailed msg))
                   | KeyKnown \<Rightarrow> (self1, w3, Inr h)
                   | KeyUnseen keytype key \<Rightarrow>
                       (self1, missing_host_key h (host self) keytype key w3, Inr h)))"

definition connect :: "connection \<Rightarrow> world \<Rightarrow> connection \<times> world \<times> (error + unit)" where
  "connect self w =
     (let cache_key = cache_key_of (host self) (user self) in
      case SSH_CONNECTION_CACHE w cache_key of
        Some h \<Rightarrow> (self\<lparr>ssh := Some h\<rparr>, w, Inr ())
      | None \<Rightarrow>
          (case connect_uncached self w of
             (self1, w1, Inl e) \<Rightarrow> (self1, w1, Inl e)
           | (self1, w1, Inr h) \<Rightarrow>
               (self1\<lparr>ssh := Some h\<rparr>,
                w1\<lparr>SSH_CONNECTION_CACHE := (SSH_CONNECTION_CACHE w1)(cache_key \<mapsto> h)\<rparr>,
                Inr ())))"

subsection \<open>File transfer\<close>

text \<open>\<^verbatim>\<open>client.open_sftp()\<close>: a new file-transfer handle, or the library's exception.\<close>

definition client_open_sftp :: "nat \<Rightarrow> world \<Rightarrow> world \<times> (error + nat)" where
  "client_open_sftp h w =
     (case open_sftp w h of
        Some msg \<Rightarrow> (w, Inl (LibraryError msg))
      | None \<Rightarrow> (let s = next_handle w
                 in (emit (OpenSftp h s) (w\<lparr>next_handle := Suc s\<rparr>), Inr s)))"

text \<open>\<^verbatim>\<open>put_file\<close>: the handle comes from \<^verbatim>\<open>self.ssh.open_sftp()\<close>, whatever the cache holds.\<close>

definition put_file :: "connection \<Rightarrow> string \<Rightarrow> string \<Rightarrow> world \<Rightarrow> connection \<times> world \<times> (error + unit)" where
  "put_file self in_path out_path w =
     (let w0 = emit (Vvv (''PUT '' @ in_path @ '' TO '' @ out_path)) w in
      if \<not> path_exists w0 in_path
      then (self, w0, Inl (AnsibleFileNotFound (''file or module does not exist: '' @ in_path)))
      else
        case (case ssh self of
                None \<Rightarrow> (w0, Inl (AttributeError ''open_sftp''))
              | Some h \<Rightarrow> client_open_sftp h w0) of
          (w1, Inl e) \<Rightarrow>
            (self, w1, Inl (AnsibleError (''failed to open a SFTP connection ('' @ str_of_error e @ '')'')))
        | (w1, Inr s) \<Rightarrow>
            (let self1 = self\<lparr>sftp := Some s\<rparr>;
                 w2 = emit (SftpPut s in_path out_path) w1
             in case sftp_transfer w in_path out_path of
                  None \<Rightarrow> (self1, w2, Inr ())
                | Some (IOError m) \<Rightarrow>
                    (self1, w2, Inl (AnsibleError (''failed to transfer file to '' @ out_path)))
                | Some e \<Rightarrow> (self1, w2, Inl e)))"

definition connect_sftp :: "connection \<Rightarrow> world \<Rightarrow> connection \<times> world \<times> (error + nat)" where
  "connect_sftp self w =
     (let cache_key = host self @ ''__'' @ user self @ ''__'' in
      case SFTP_CONNECTION_CACHE w cache_key of
        Some s \<Rightarrow> (self, w, Inr s)
      | None \<Rightarrow>
          (case connect self w of
             (self1, w1, Inl e) \<Rightarrow> (self1, w1, Inl e)
           | (self1, w1, Inr _) \<Rightarrow>
               (case (case ssh self1 of
                        None \<Rightarrow> (w1, Inl (AttributeError ''open_sftp''))
                      | Some h \<Rightarrow> client_open_sftp h w1) of
                  (w2, Inl e) \<Rightarrow> (self1, w2, Inl e)
                | (w2, Inr s) \<Rightarrow>
                    (self1,
                     w2\<lparr>SFTP_CONNECTION_CACHE := (SFTP_CONNECTION_CACHE w2)(cache_key \<mapsto> s)\<rparr>,
                     Inr s))))"

text \<open>\<^verbatim>\<open>fetch_file\<close>. On a failure to open, the source hands the message and the exception
  to \<^verbatim>\<open>AnsibleError\<close> as two arguments; the message is kept as it is written.\<close>

definition fetch_file :: "connection \<Rightarrow> string \<Rightarrow> string \<Rightarrow> world \<Rightarrow> connection \<times> world \<times> (error + unit)" where
  "fetch_file self in_path out_path w =
     (let w0 = emit (Vvv (''FETCH '' @ in_path @ '' TO '' @ out_path)) w in
      case connect_sftp self w0 of
        (self1, w1, Inl e) \<Rightarrow>
          (self1, w1, Inl (AnsibleError ''failed to open a SFTP connection (%s)''))
      | (self1, w1, Inr s) \<Rightarrow>
          (let self2 = self1\<lparr>sftp := Some s\<rparr>;
               w2 = emit (SftpGet s in_path out_path) w1
           in case sftp_transfer w in_path out_path of
                None \<Rightarrow> (self2, w2, Inr ())
              | Some (IOError m) \<Rightarrow>
                  (self2, w2, Inl (AnsibleError (''failed to transfer file from '' @ in_path)))
              | Some e \<Rightarrow> (self2, w2, Inl e)))"

subsection \<open>\<^verbatim>\<open>exec_command\<close>\<close>

text \<open>
  Python's \<^verbatim>\<open>int(s)\<close> on a string: surrounding white space is dropped, one sign is allowed,
  and what is left must be decimal digits, at least one; anything else raises
  \<^verbatim>\<open>ValueError\<close>. \<^verbatim>\<open>int(os.getenv(NAME, 0))\<close> is \<open>0\<close> when the variable is unset.
\<close>

definition py_isspace :: "char \<Rightarrow> bool" where
  "py_isspace c = (c \<in> set [CHR 0x09, CHR 0x0A, CHR 0x0B, CHR 0x0C, CHR 0x0D, CHR 0x20])"

definition py_strip :: "string \<Rightarrow> string" where
  "py_strip s = rev (dropWhile py_isspace (rev (dropWhile py_isspace s)))"

definition py_isdigit :: "char \<Rightarrow> bool" where
  "py_isdigit c = (c \<in> set ''0123456789'')"

definition digits_value :: "string \<Rightarrow> int" where
  "digits_value ds = foldl (\<lambda>a c. 10 * a + (int (of_char c) - 48)) 0 ds"

definition py_int :: "string \<Rightarrow> error + int" where
  "py_int s =
     (let t = py_strip s;
          neg = (t \<noteq> [] \<and> hd t = CHR ''-'');
          ds = (if t \<noteq> [] \<and> (hd t = CHR ''-'' \<or> hd t = CHR ''+'') then tl t else t)
      in if ds \<noteq> [] \<and> list_all py_isdigit ds
         then Inr (if neg then - digits_value ds else digits_value ds)
         else Inl (ValueError s))"

definition getenv_int :: "world \<Rightarrow> string \<Rightarrow> error + int" where
  "getenv_int w name = (case environ w name of None \<Rightarrow> Inr 0 | Some s \<Rightarrow> py_int s)"

text \<open>
  The loop that waits for the prompt:
  \<^verbatim>\<open>while not sudo_output.endswith(prompt):\<close>
  \<^verbatim>\<open>    chunk = chan.recv(bufsize)\<close>
  \<^verbatim>\<open>    if not chunk: raise ... \<close>
  \<^verbatim>\<open>    sudo_output += chunk\<close>
  run against the answers \<^verbatim>\<open>recv\<close> will give. The loop leaves with the accumulated output
  and the answers not yet consumed, raises, or meets \<^verbatim>\<open>socket.timeout\<close>; \<open>None\<close> is a loop
  still waiting when the listed answers are used up.
\<close>

datatype scan_result = Satisfied string "recv list" | Raised error | SocketTimeout string

fun sudo_wait :: "string \<Rightarrow> string \<Rightarrow> string \<Rightarrow> recv list \<Rightarrow> scan_result option" where
  "sudo_wait sudo_user prompt sudo_output [] =
     (if suffix prompt sudo_output then Some (Satisfied sudo_output []) else None)"
| "sudo_wait sudo_user prompt sudo_output (r # rest) =
     (if suffix prompt sudo_output then Some (Satisfied sudo_output (r # rest))
      else case r of
        RecvTimeout \<Rightarrow> Some (SocketTimeout sudo_output)
      | Recv chunk \<Rightarrow>
          if chunk = []
          then (if sublist ''unknown user'' sudo_output
                then Some (Raised (AnsibleError (''user '' @ sudo_user @ '' does not exist'')))
                else Some (Raised (AnsibleError ''ssh connection closed waiting for password prompt'')))
          else sudo_wait sudo_user prompt (sudo_output @ chunk) rest)"

text \<open>
  The elevation branch after \<^verbatim>\<open>get_pty\<close>: \<^verbatim>\<open>chan.exec_command(shcmd)\<close>, the wait when a
  secret is configured, \<^verbatim>\<open>chan.sendall(self.runner.sudo_pass + '\n')\<close>, and the handler
  of \<^verbatim>\<open>socket.timeout\<close>. \<open>None\<close>: the wait has not ended on the listed answers.
\<close>

definition sudo_exchange ::
  "connection \<Rightarrow> string \<Rightarrow> string \<Rightarrow> string \<Rightarrow> channel \<Rightarrow> world \<Rightarrow> (world \<times> (error + unit)) option" where
  "sudo_exchange self sudo_user shcmd prompt chan w =
     (let w1 = emit (ExecCommand shcmd) w in
      if truthy (sudo_pass (runner self))
      then (case sudo_wait sudo_user prompt [] (recv_script chan) of
              None \<Rightarrow> None
            | Some (Satisfied out rest) \<Rightarrow>
                Some (emit (Sendall (the (sudo_pass (runner self)) @ [CHR 0x0A])) w1, Inr ())
            | Some (Raised e) \<Rightarrow> Some (w1, Inl e)
            | Some (SocketTimeout out) \<Rightarrow>
                Some (w1, Inl (AnsibleError (''ssh timed out waiting for sudo.'' @ [CHR 0x0A] @ out))))
      else Some (w1, Inr ()))"

definition exec_command ::
  "connection \<Rightarrow> string \<Rightarrow> string \<Rightarrow> string \<Rightarrow> bool \<Rightarrow> string \<Rightarrow> world
     \<Rightarrow> (world \<times> (error + int \<times> string \<times> string \<times> string)) option" where
  "exec_command self cmd tmp_path sudo_user sudoable executable w =
     (case (case ssh self of
              None \<Rightarrow> Inl ''get_transport''
            | Some h \<Rightarrow> open_session w h) of
        Inl e \<Rightarrow>
          Some (w, Inl (AnsibleConnectionFailed
                          (''Failed to open session'' @ (if length e > 0 then '': '' @ e else []))))
      | Inr chan \<Rightarrow>
          (let w1 = emit (OpenSession (the (ssh self))) w in
           case (if \<not> sudo (runner self) \<or> \<not> sudoable
                 then (let quoted_command =
                             (if executable \<noteq> [] then executable @ '' -c '' @ pipes_quote w cmd
                              else cmd)
                       in Some (emit (ExecCommand quoted_command)
                                  (emit (Vvv (''EXEC '' @ quoted_command)) w1), Inr ()))
                 else (case getenv_int w ''COLUMNS'' of
                         Inl e \<Rightarrow> Some (w1, Inl e)
                       | Inr width \<Rightarrow>
                           (case getenv_int w ''LINES'' of
                              Inl e \<Rightarrow> Some (w1, Inl e)
                            | Inr height \<Rightarrow>
                                (let term = (case environ w ''TERM'' of
                                               None \<Rightarrow> ''vt100'' | Some t \<Rightarrow> t);
                                     w2 = emit (GetPty term width height) w1;
                                     (shcmd, prompt) = make_sudo_cmd w sudo_user executable cmd;
                                     w3 = emit (Vvv (''EXEC '' @ shcmd)) w2
                                 in sudo_exchange self sudo_user shcmd prompt chan w3)))) of
             None \<Rightarrow> None
           | Some (w4, Inl e) \<Rightarrow> Some (w4, Inl e)
           | Some (w4, Inr _) \<Rightarrow>
               Some (w4, Inr (chan_exit_status chan, [], chan_stdout chan, chan_stderr chan))))"

section \<open>Vocabulary of the statements\<close>

text \<open>
  The keys of a store one by one, in the order the nested loops of \<^verbatim>\<open>_save_ssh_host_keys\<close>
  meet them, the line written for one of them, whether it carries the tag, and the set of
  key objects a store holds.
\<close>

definition entries :: "host_keys \<Rightarrow> (string \<times> string \<times> pkey) list" where
  "entries hk = concat (map (\<lambda>(h, ks). map (Pair h) ks) hk)"


definition tagged :: "string \<times> string \<times> pkey \<Rightarrow> bool" where
  "tagged e = (case e of (h, t, k) \<Rightarrow> added_by_ansible_this_time k)"

definition keys_of :: "host_keys \<Rightarrow> pkey set" where
  "keys_of hk = (\<Union>(h, ks) \<in> set hk. snd ` set ks)"

text \<open>
  A process that has just started, with a network and a file system that refuse nothing,
  two keys and a connection object, for the examples.
\<close>

definition start_world :: world where
  "start_world =
     \<lparr>SSH_CONNECTION_CACHE = Map.empty, SFTP_CONNECTION_CACHE = Map.empty,
      clients = (\<lambda>_. \<lparr>host_keys = [], system_host_keys = [], host_keys_filename = None\<rparr>),
      next_handle = 0, files = Map.empty, dirs = {}, unwritable = {}, unlockable = {},
      home = ''/home/u'', environ = Map.empty,
      known_hosts_parser = (\<lambda>_. Inr []),
      HAVE_PARAMIKO = True, HOST_KEY_CHECKING = True,
      handshake = (\<lambda>_ _. KeyKnown),
      open_session = (\<lambda>_. Inr \<lparr>recv_script = [], chan_stdout = [], chan_stderr = [],
                                  chan_exit_status = 0\<rparr>),
      open_sftp = (\<lambda>_. None), sftp_transfer = (\<lambda>_ _. None),
      pipes_quote = (\<lambda>s. s), make_sudo_cmd = (\<lambda>u e c. (c, ''password: '')),
      trace = []\<rparr>"



definition deploy :: connection where
  "deploy =
     \<lparr>ssh = Some 0, sftp = None,
      runner = \<lparr>runner_private_key_file = None, timeout = 10, sudo = True,
                 sudo_pass = Some ''secret''\<rparr>,
      host = ''web1'', port = ''22'', user = ''deploy'', password = None,
      private_key_file = None, keyfile = Some ''/home/u/.ssh/known_hosts''\<rparr>"


text \<open>
  A connection object as \<^verbatim>\<open>__init__\<close> leaves it, the world after its \<^verbatim>\<open>connect\<close>, after the
  \<^verbatim>\<open>close\<close> that follows, and after one more \<^verbatim>\<open>connect\<close>.
\<close>

definition fresh :: connection where
  "fresh = init_connection (runner deploy) ''web1'' ''22'' ''deploy'' None None"

definition world1 :: world where
  "world1 = fst (snd (connect fresh start_world))"



text \<open>Whether an entry of the trace is the opening of a file-transfer channel.\<close>

fun opens_sftp :: "event \<Rightarrow> bool" where
  "opens_sftp (OpenSftp h s) = True"
| "opens_sftp e = False"

text \<open>
  Two transfers in a row on one connection, in each direction, from a world where the
  local source exists; and two connection objects whose (host, user) pairs differ.
\<close>

definition source_world :: world where
  "source_world = world1\<lparr>files := [''/tmp/src'' \<mapsto> ''data'']\<rparr>"

definition first_put :: "connection \<times> world \<times> (error + unit)" where
  "first_put = put_file deploy ''/tmp/src'' ''/tmp/dst'' source_world"

definition second_put :: "connection \<times> world \<times> (error + unit)" where
  "second_put = put_file (fst first_put) ''/tmp/src'' ''/tmp/dst'' (fst (snd first_put))"

definition first_fetch :: "connection \<times> world \<times> (error + unit)" where
  "first_fetch = fetch_file deploy ''/tmp/dst'' ''/tmp/src'' source_world"

definition second_fetch :: "connection \<times> world \<times> (error + unit)" where
  "second_fetch = fetch_file (fst first_fetch) ''/tmp/dst'' ''/tmp/src'' (fst (snd first_fetch))"

definition other_pair :: connection where
  "other_pair = init_connection (runner deploy) ''a'' ''22'' ''b__c'' None None"

definition one_pair :: connection where
  "one_pair = init_connection (runner deploy) ''a__b'' ''22'' ''c'' None None"

text \<open>
  The statement of the prompt scanner: from the accumulated output \<open>out\<close>, the answers in
  \<open>script\<close> begin with non-empty chunks after which the accumulated output \<open>out'\<close> ends with
  the prompt, for the first time at a point where the loop tests it; \<open>rest\<close> are the answers
  after them.
\<close>

definition prompt_reached :: "string \<Rightarrow> string \<Rightarrow> recv list \<Rightarrow> string \<Rightarrow> recv list \<Rightarrow> bool" where
  "prompt_reached prompt out script out' rest \<longleftrightarrow>
     (\<exists>chunks. script = map Recv chunks @ rest \<and> [] \<notin> set chunks
        \<and> out' = out @ concat chunks \<and> suffix prompt out'
        \<and> (\<forall>n < length chunks. \<not> suffix prompt (out @ concat (take n chunks))))"

text \<open>Two channels: one whose output comes to end with the prompt, and one that shows the
  prompt only in the middle of its output and then closes.\<close>

definition prompting :: channel where
  "prompting = \<lparr>recv_script = [Recv ''[sudo] pass'', Recv ''word: '', Recv ''never read''],
                 chan_stdout = ''done'', chan_stderr = [], chan_exit_status = 0\<rparr>"

definition not_trailing :: channel where
  "not_trailing = \<lparr>recv_script = [Recv ''password: please'', Recv ''pass'', Recv []],
                    chan_stdout = [], chan_stderr = [], chan_exit_status = 1\<rparr>"

text \<open>The world once the session is opened, the pseudo-terminal requested and the command
  logged, just before \<^verbatim>\<open>chan.exec_command(shcmd)\<close>.\<close>

definition pty_opened :: "connection \<Rightarrow> nat \<Rightarrow> int \<Rightarrow> int \<Rightarrow> string \<Rightarrow> world \<Rightarrow> world" where
  "pty_opened self h width height shcmd w =
     emit (Vvv (''EXEC '' @ shcmd))
       (emit (GetPty (case environ w ''TERM'' of None \<Rightarrow> ''vt100'' | Some t \<Rightarrow> t) width height)
          (emit (OpenSession h) w))"

text \<open>A channel that reports an unknown user and closes.\<close>

definition unknown_user :: channel where
  "unknown_user = \<lparr>recv_script = [Recv ''sudo: unknown'', Recv '' user: nobody'', Recv []],
                    chan_stdout = [], chan_stderr = [], chan_exit_status = 1\<rparr>"

section \<open>The cache key\<close>

lemma cache_key_collision:
  "cache_key_of ''a__b'' ''c'' = cache_key_of ''a'' ''b__c''
   \<and> (''a__b'', ''c'') \<noteq> (''a'', ''b__c'')
   \<and> \<not> inj (\<lambda>(h, u). cache_key_of h u)"
proof -
  have same: "cache_key_of ''a__b'' ''c'' = cache_key_of ''a'' ''b__c''"
    by (simp add: cache_key_of_def)
  have diff: "(''a__b'', ''c'') \<noteq> (''a'', ''b__c'')"
    by simp
  have "\<not> inj (\<lambda>(h, u). cache_key_of h u)"
  proof
    assume "inj (\<lambda>(h, u). cache_key_of h u)"
    then have "(''a__b'', ''c'') = (''a'', ''b__c'')"
      using same by (auto dest!: injD [where x = "(''a__b'', ''c'')" and y = "(''a'', ''b__c'')"])
    with diff show False by simp
  qed
  with same diff show ?thesis by simp
qed

section \<open>The trust file\<close>



lemma scan_keys_eq:
  "scan_keys ks a = (a \<or> list_ex (\<lambda>(t, k). added_by_ansible_this_time k) ks)"
  by (induction ks arbitrary: a) (simp_all split: prod.splits)

lemma entries_Cons:
  "entries ((h, ks) # hk) = map (Pair h) ks @ entries hk"
  by (simp add: entries_def)

lemma list_ex_host:
  "list_ex tagged (map (Pair h) ks) = list_ex (\<lambda>(t, k). added_by_ansible_this_time k) ks"
  by (induction ks) (simp_all add: tagged_def split_def)

lemma scan_hosts_eq:
  "scan_hosts hk a = (a \<or> list_ex tagged (entries hk))"
proof (induction hk arbitrary: a)
  case Nil
  then show ?case by (simp add: entries_def)
next
  case (Cons x hk)
  obtain h ks where x: "x = (h, ks)" by (cases x)
  have "scan_hosts (x # hk) a = scan_hosts hk (scan_keys ks a)"
    by (simp add: x)
  also have "\<dots> = ((a \<or> list_ex (\<lambda>(t, k). added_by_ansible_this_time k) ks) \<or> list_ex tagged (entries hk))"
    by (simp only: Cons.IH scan_keys_eq)
  also have "\<dots> = (a \<or> list_ex tagged (entries (x # hk)))"
    unfolding x entries_Cons by (simp add: list_ex_host)
  finally show ?case .
qed

lemma save_noop:
  assumes "\<not> list_ex tagged (entries hk)"
  shows "save_ssh_host_keys hk filename w = (w, Inr ())"
  using assms by (simp add: save_ssh_host_keys_def scan_hosts_eq)


lemma keys_of_simps:
  "keys_of [] = {}"
  "keys_of ((h, ks) # hk) = snd ` set ks \<union> keys_of hk"
  by (auto simp: keys_of_def)

lemma tagged_keys_of:
  "list_ex tagged (entries hk) = (\<exists>k \<in> keys_of hk. added_by_ansible_this_time k)"
proof (induction hk)
  case Nil
  then show ?case by (simp add: entries_def keys_of_def)
next
  case (Cons x hk)
  obtain h ks where x: "x = (h, ks)" by (cases x)
  have "list_ex tagged (map (Pair h) ks) = (\<exists>k \<in> snd ` set ks. added_by_ansible_this_time k)"
    by (induction ks) (auto simp: tagged_def)
  with Cons show ?case
    unfolding x entries_Cons keys_of_simps by (simp add: bex_Un)
qed

lemma setitem_key_keys: "snd ` set (setitem_key t k ks) \<subseteq> insert k (snd ` set ks)"
  by (induction ks) (auto split: if_splits simp: image_iff, force+)

lemma fold_setitem_key_keys:
  "snd ` set (fold (\<lambda>(t, k). setitem_key t k) entry ks) \<subseteq> snd ` set entry \<union> snd ` set ks"
proof (induction entry arbitrary: ks)
  case Nil
  then show ?case by simp
next
  case (Cons e entry)
  obtain t k where e: "e = (t, k)" by (cases e)
  have "snd ` set (fold (\<lambda>(t, k). setitem_key t k) (e # entry) ks)
          \<subseteq> snd ` set entry \<union> snd ` set (setitem_key t k ks)"
    using Cons.IH [of "setitem_key t k ks"] by (simp add: e)
  also have "\<dots> \<subseteq> snd ` set entry \<union> insert k (snd ` set ks)"
    using setitem_key_keys [of t k ks] by blast
  finally show ?case by (auto simp: e)
qed

lemma setitem_host_keys:
  "keys_of (setitem_host h entry hk) \<subseteq> snd ` set entry \<union> keys_of hk"
proof (induction hk)
  case Nil
  show ?case
    using fold_setitem_key_keys [of entry "[]"] by (simp add: keys_of_simps)
next
  case (Cons x hk)
  obtain h' ks where x: "x = (h', ks)" by (cases x)
  show ?case
  proof (cases "h' = h")
    case True
    then show ?thesis
      using fold_setitem_key_keys [of entry ks] by (auto simp: x keys_of_simps)
  next
    case False
    then show ?thesis
      using Cons.IH by (auto simp: x keys_of_simps)
  qed
qed

lemma HostKeys_update_keys:
  "keys_of (HostKeys_update hk other) \<subseteq> keys_of hk \<union> keys_of other"
  unfolding HostKeys_update_def
proof (induction other arbitrary: hk)
  case Nil
  then show ?case by simp
next
  case (Cons x other)
  obtain h entry where x: "x = (h, entry)" by (cases x)
  have "keys_of (fold (\<lambda>(h, entry). setitem_host h entry) (x # other) hk)
          \<subseteq> keys_of (setitem_host h entry hk) \<union> keys_of other"
    using Cons.IH [of "setitem_host h entry hk"] by (simp add: x)
  also have "\<dots> \<subseteq> (snd ` set entry \<union> keys_of hk) \<union> keys_of other"
    using setitem_host_keys [of h entry hk] by blast
  finally show ?case by (auto simp: x keys_of_simps)
qed

lemma untagged_keys: "k \<in> keys_of (untagged raw) \<Longrightarrow> \<not> added_by_ansible_this_time k"
  by (auto simp: keys_of_def untagged_def)

lemma replace_str_length:
  "length new \<ge> length old \<Longrightarrow> length (replace_str old new s) \<ge> length s"
proof (induction old new s rule: replace_str.induct)
  case (1 old new)
  then show ?case by simp
next
  case (2 old new c cs)
  show ?case
  proof (cases "old \<noteq> [] \<and> prefix old (c # cs)")
    case True
    then have "length old \<le> length (c # cs)" by (auto dest: prefix_length_le)
    with True 2 show ?thesis by simp
  next
    case False
    with 2 show ?thesis by auto
  qed
qed

lemma replace_str_longer:
  "length new > length old \<Longrightarrow> old \<noteq> [] \<Longrightarrow> sublist old s \<Longrightarrow>
     length (replace_str old new s) > length s"
proof (induction old new s rule: replace_str.induct)
  case (1 old new)
  then show ?case by simp
next
  case (2 old new c cs)
  show ?case
  proof (cases "prefix old (c # cs)")
    case True
    then have le: "length old \<le> length (c # cs)" by (auto dest: prefix_length_le)
    have "length (replace_str old new (drop (length old) (c # cs))) \<ge> length (drop (length old) (c # cs))"
      using 2(3) by (intro replace_str_length) simp
    with True 2(3,4) le show ?thesis by simp
  next
    case False
    with 2(5) have "sublist old cs"
      by (auto simp: sublist_Cons_right)
    with False 2 show ?thesis by auto
  qed
qed

lemma lockfile_differs:
  "sublist ''known_hosts'' kf \<Longrightarrow> replace_str ''known_hosts'' ''.known_hosts.lock'' kf \<noteq> kf"
  using replace_str_longer [of "''known_hosts''" "''.known_hosts.lock''" kf] by auto

lemma load_system_host_keys_frame:
  "files (fst (load_system_host_keys h w)) = files w"
  "unwritable (fst (load_system_host_keys h w)) = unwritable w"
  "home (fst (load_system_host_keys h w)) = home w"
  "dirs (fst (load_system_host_keys h w)) = dirs w"
  "trace (fst (load_system_host_keys h w)) = trace w"
  "next_handle (fst (load_system_host_keys h w)) = next_handle w"
  "SSH_CONNECTION_CACHE (fst (load_system_host_keys h w)) = SSH_CONNECTION_CACHE w"
  "SFTP_CONNECTION_CACHE (fst (load_system_host_keys h w)) = SFTP_CONNECTION_CACHE w"
  by (simp_all add: load_system_host_keys_def Let_def split: option.splits sum.splits)

lemma load_system_host_keys_clients:
  "host_keys (clients (fst (load_system_host_keys h w)) h) = host_keys (clients w h)"
  "keys_of (system_host_keys (clients (fst (load_system_host_keys h w)) h))
     \<subseteq> keys_of (system_host_keys (clients w h)) \<union> {k. \<not> added_by_ansible_this_time k}"
proof -
  show "host_keys (clients (fst (load_system_host_keys h w)) h) = host_keys (clients w h)"
    by (simp add: load_system_host_keys_def Let_def split: option.splits sum.splits)
  show "keys_of (system_host_keys (clients (fst (load_system_host_keys h w)) h))
     \<subseteq> keys_of (system_host_keys (clients w h)) \<union> {k. \<not> added_by_ansible_this_time k}"
  proof (cases "files w (expanduser w ''~/.ssh/known_hosts'')")
    case None
    then show ?thesis by (simp add: load_system_host_keys_def)
  next
    case (Some content)
    show ?thesis
    proof (cases "known_hosts_parser w content")
      case (Inl msg)
      with Some show ?thesis by (simp add: load_system_host_keys_def)
    next
      case (Inr raw)
      have "keys_of (HostKeys_update (system_host_keys (clients w h)) (untagged raw))
              \<subseteq> keys_of (system_host_keys (clients w h)) \<union> keys_of (untagged raw)"
        by (rule HostKeys_update_keys)
      moreover have "keys_of (untagged raw) \<subseteq> {k. \<not> added_by_ansible_this_time k}"
        using untagged_keys by blast
      ultimately show ?thesis
        using Some Inr by (auto simp: load_system_host_keys_def Let_def)
    qed
  qed
qed

lemma close_try_body_untagged:
  assumes "ssh self = Some h"
      and "\<not> list_ex tagged (entries (host_keys (clients w h)))"
      and "\<not> list_ex tagged (entries (system_host_keys (clients w h)))"
  shows "files (fst (close_try_body self kf w)) = files w"
proof -
  obtain w1 r where l: "load_system_host_keys h w = (w1, r)" by (cases "load_system_host_keys h w")
  have f1: "files w1 = files w"
    using load_system_host_keys_frame(1) [of h w] l by simp
  show ?thesis
  proof (cases r)
    case (Inl e)
    with l f1 assms(1) show ?thesis by (simp add: close_try_body_def)
  next
    case (Inr u)
    let ?cl = "clients w1 h"
    let ?hk = "HostKeys_update (host_keys ?cl) (system_host_keys ?cl)"
    have "keys_of ?hk \<subseteq> keys_of (host_keys ?cl) \<union> keys_of (system_host_keys ?cl)"
      by (rule HostKeys_update_keys)
    moreover have "host_keys ?cl = host_keys (clients w h)"
      using load_system_host_keys_clients(1) [of h w] l by simp
    moreover have "keys_of (system_host_keys ?cl)
         \<subseteq> keys_of (system_host_keys (clients w h)) \<union> {k. \<not> added_by_ansible_this_time k}"
      using load_system_host_keys_clients(2) [of h w] l by simp
    moreover have "\<forall>k \<in> keys_of (host_keys (clients w h)). \<not> added_by_ansible_this_time k"
      using assms(2) by (simp add: tagged_keys_of)
    moreover have "\<forall>k \<in> keys_of (system_host_keys (clients w h)). \<not> added_by_ansible_this_time k"
      using assms(3) by (simp add: tagged_keys_of)
    ultimately have "\<forall>k \<in> keys_of ?hk. \<not> added_by_ansible_this_time k"
      by (metis (no_types, lifting) Un_iff mem_Collect_eq subsetD)
    then have "\<not> list_ex tagged (entries ?hk)"
      by (simp add: tagged_keys_of)
    then have "\<And>w'. save_ssh_host_keys ?hk kf w' = (w', Inr ())"
      by (rule save_noop)
    with l Inr f1 assms(1) show ?thesis
      by (simp add: close_try_body_def Let_def)
  qed
qed

lemma close_release_frame:
  "files (close_release self w) = files w"
  "unwritable (close_release self w) = unwritable w"
  "unlockable (close_release self w) = unlockable w"
  "clients (close_release self w) = clients w"
  "next_handle (close_release self w) = next_handle w"
  by (simp_all add: close_release_def emit_def Let_def split: option.splits)

lemma close_locked_files:
  "files (fst (close_locked self kf lockfile w)) = files (fst (close_try_body self kf w))"
  by (simp add: close_locked_def emit_def Let_def split: option.splits prod.splits sum.splits)

lemma close_files_untagged:
  assumes "ssh self = Some h"
      and "\<not> list_ex tagged (entries (host_keys (clients w h)))"
      and "\<not> list_ex tagged (entries (system_host_keys (clients w h)))"
      and "keyfile self = Some kf"
      and "p \<noteq> replace_str ''known_hosts'' ''.known_hosts.lock'' kf"
  shows "files (fst (close self w)) p = files w p"
proof -
  let ?lock = "replace_str ''known_hosts'' ''.known_hosts.lock'' kf"
  let ?w3 = "close_release self w"
  have tb: "\<And>w'. clients w' = clients w \<Longrightarrow> files (fst (close_try_body self kf w')) = files w'"
    using assms(1-3) by (intro close_try_body_untagged) simp_all
  show ?thesis
  proof (cases "?lock \<in> unwritable w")
    case True
    then show ?thesis
      using assms(4) by (simp add: close_def open_w_def close_release_frame Let_def)
  next
    case False
    let ?w4 = "?w3\<lparr>files := (files ?w3)(?lock \<mapsto> [])\<rparr>"
    show ?thesis
    proof (cases "?lock \<in> unlockable w")
      case True
      then show ?thesis
        using assms(4,5) False
        by (simp add: close_def open_w_def flock_ex_def close_release_frame Let_def)
    next
      case unl: False
      have "close self w = close_locked self kf ?lock (emit (Flock ?lock True) ?w4)"
        using assms(4) False unl
        by (simp add: close_def open_w_def flock_ex_def close_release_frame Let_def)
      moreover have "clients (emit (Flock ?lock True) ?w4) = clients w"
        by (simp add: emit_def close_release_frame)
      ultimately show ?thesis
        using assms(5) by (simp add: close_locked_files tb emit_def close_release_frame)
    qed
  qed
qed

lemma close_trust_file_untagged:
  assumes "ssh self = Some h"
      and "keyfile self = Some kf"
      and "sublist ''known_hosts'' kf"
      and "\<not> list_ex tagged (entries (host_keys (clients w h)))"
      and "\<not> list_ex tagged (entries (system_host_keys (clients w h)))"
  shows "files (fst (close self w)) kf = files w kf"
proof -
  have "kf \<noteq> replace_str ''known_hosts'' ''.known_hosts.lock'' kf"
    using lockfile_differs [OF assms(3)] by simp
  then show ?thesis
    using assms(1,2,4,5) by (intro close_files_untagged) simp_all
qed



text \<open>
  Claim C4. When no key of the session's client carries the tag, \<^verbatim>\<open>close\<close> leaves the trust
  file as it was: after the reload and the merge still no key is tagged, so
  \<^verbatim>\<open>_save_ssh_host_keys\<close> returns before it opens the file, and the only file \<^verbatim>\<open>close\<close>
  itself opens is the lock file, which has another name.
\<close>

theorem close_without_new_keys_keeps_trust_file:
  assumes "ssh self = Some h"
      and "keyfile self = Some kf"
      and "sublist ''known_hosts'' kf"
      and "\<not> list_ex tagged (entries (host_keys (clients w h)))"
      and "\<not> list_ex tagged (entries (system_host_keys (clients w h)))"
  shows "files (fst (close self w)) kf = files w kf
       \<and> save_ssh_host_keys (host_keys (clients w h)) kf w = (w, Inr ())"
  using close_trust_file_untagged [OF assms] save_noop [OF assms(4)] by simp

theorem close_without_new_keys_keeps_trust_file_witness:
  "ssh deploy = Some 0 \<and> keyfile deploy = Some ''/home/u/.ssh/known_hosts''
   \<and> files (fst (close deploy
        (start_world\<lparr>files := [''/home/u/.ssh/known_hosts'' \<mapsto> ''old ssh-rsa AAAA'']\<rparr>)))
        ''/home/u/.ssh/known_hosts'' = Some ''old ssh-rsa AAAA''"
proof -
  let ?w = "start_world\<lparr>files := [''/home/u/.ssh/known_hosts'' \<mapsto> ''old ssh-rsa AAAA'']\<rparr>"
  have a: "ssh deploy = Some 0" and b: "keyfile deploy = Some ''/home/u/.ssh/known_hosts''"
    by (simp_all add: deploy_def)
  have c: "sublist ''known_hosts'' ''/home/u/.ssh/known_hosts''"
    by code_simp
  have d: "\<not> list_ex tagged (entries (host_keys (clients ?w 0)))"
    and e: "\<not> list_ex tagged (entries (system_host_keys (clients ?w 0)))"
    by (simp_all add: start_world_def entries_def)
  show ?thesis
    using close_without_new_keys_keeps_trust_file [OF a b c d e] a b
    by (simp add: start_world_def)
qed

section \<open>Closing a connection\<close>
















section \<open>The connection cache\<close>

lemma connect_hit:
  "SSH_CONNECTION_CACHE w (cache_key_of (host c) (user c)) = Some h \<Longrightarrow>
     connect c w = (c\<lparr>ssh := Some h\<rparr>, w, Inr ())"
  by (simp add: connect_def)

lemma missing_host_key_frame:
  "next_handle (missing_host_key h hn t k w) = next_handle w"
  "SSH_CONNECTION_CACHE (missing_host_key h hn t k w) = SSH_CONNECTION_CACHE w"
  "trace (missing_host_key h hn t k w) = trace w"
  by (simp_all add: missing_host_key_def Let_def split: option.splits)

lemma connect_uncached_ok:
  assumes "connect_uncached c w = (c', w', Inr h)"
  shows "h = next_handle w" and "next_handle w' = Suc (next_handle w)"
    and "host c' = host c" and "user c' = user c"
    and "SSH_CONNECTION_CACHE w' = SSH_CONNECTION_CACHE w"
    and "\<exists>a k. Handshake h (host c) (user c) a k \<in> set (trace w')"
proof -
  have hp: "HAVE_PARAMIKO w"
    using assms by (auto simp: connect_uncached_def split: if_splits)
  define w0 where "w0 = emit (Vvv (''ESTABLISH CONNECTION FOR USER: '' @ user c @ '' on PORT '' @ port c
                            @ '' TO '' @ host c)) w"
  define w1 where "w1 = w0\<lparr>next_handle := Suc (next_handle w0),
                    clients := (clients w0)(next_handle w0 := \<lparr>host_keys = [], system_host_keys = [],
                                                  host_keys_filename = None\<rparr>)\<rparr>"
  define lr where "lr = (if HOST_KEY_CHECKING w then load_system_host_keys (next_handle w0) w1 else (w1, Inr ()))"
  obtain w2 r where lr2: "lr = (w2, r)" by (cases lr)
  have fr: "next_handle w2 = Suc (next_handle w)" "SSH_CONNECTION_CACHE w2 = SSH_CONNECTION_CACHE w"
    using lr2 load_system_host_keys_frame(6,7) [of "next_handle w0" w1]
    by (auto simp: lr_def w1_def w0_def emit_def split: if_splits)
  have n0: "next_handle w0 = next_handle w" by (simp add: w0_def emit_def)
  define kfn where "kfn = (if truthy (private_key_file c)
                       then map_option (expanduser w) (private_key_file c)
                       else if truthy (runner_private_key_file (runner c))
                       then map_option (expanduser w) (runner_private_key_file (runner c))
                       else None)"
  define c1 where "c1 = c\<lparr>keyfile := Some (expanduser w ''~/.ssh/known_hosts'')\<rparr>"
  define w3 where "w3 = emit (Handshake (next_handle w0) (host c) (user c) (password c = None) kfn) w2"
  have unf: "connect_uncached c w =
     (case r of
        Inl e \<Rightarrow> (c1, w2, Inl e)
      | Inr _ \<Rightarrow>
          (case handshake w (host c) (user c) of
             HandshakeFails msg \<Rightarrow>
               (c1, w3,
                Inl (if sublist ''PID check failed'' msg
                     then AnsibleError
                       ''paramiko version issue, please upgrade paramiko on the machine running ansible''
                     else if sublist ''Private key file is encrypted'' msg
                     then AnsibleConnectionFailed
                       (''ssh '' @ user c @ ''@'' @ host c @ '':'' @ port c @ '' : '' @ msg
                        @ [CHR 0x0A] @ ''To connect as a different user, use -u <username>.'')
                     else AnsibleConnectionFailed msg))
           | KeyKnown \<Rightarrow> (c1, w3, Inr (next_handle w0))
           | KeyUnseen keytype key \<Rightarrow>
               (c1, missing_host_key (next_handle w0) (host c) keytype key w3, Inr (next_handle w0))))"
    using hp lr2 unfolding connect_uncached_def lr_def w1_def w0_def Let_def kfn_def c1_def w3_def
    by (simp split: sum.splits)
  from assms unf lr2 obtain u where r: "r = Inr u"
    by (cases r) auto
  have cases: "(h = next_handle w0 \<and> c' = c1)
      \<and> (w' = w3 \<or> (\<exists>t k. w' = missing_host_key (next_handle w0) (host c) t k w3))"
  proof (cases "handshake w (host c) (user c)")
    case (HandshakeFails msg)
    with assms unf lr2 r show ?thesis by (auto simp: Let_def)
  next
    case KeyKnown
    with assms unf lr2 r show ?thesis by (auto simp: Let_def)
  next
    case (KeyUnseen t k)
    with assms unf lr2 r
    have "h = next_handle w0" "c' = c1"
      "w' = missing_host_key (next_handle w0) (host c) t k w3"
      by (auto simp: Let_def)
    then show ?thesis by blast
  qed
  show "h = next_handle w" using cases n0 by simp
  show "host c' = host c" "user c' = user c" using cases by (simp_all add: c1_def)
  show "next_handle w' = Suc (next_handle w)"
    using cases fr by (auto simp: missing_host_key_frame emit_def w3_def)
  show "SSH_CONNECTION_CACHE w' = SSH_CONNECTION_CACHE w"
    using cases fr by (auto simp: missing_host_key_frame emit_def w3_def)
  have "Handshake h (host c) (user c) (password c = None) kfn \<in> set (trace w')"
    using cases by (auto simp: missing_host_key_frame emit_def w3_def)
  then show "\<exists>a k. Handshake h (host c) (user c) a k \<in> set (trace w')"
    by blast
qed

lemma connect_miss:
  assumes "SSH_CONNECTION_CACHE w (cache_key_of (host c) (user c)) = None"
      and "connect c w = (c', w', Inr ())"
  shows "ssh c' = Some (next_handle w)" and "next_handle w' = Suc (next_handle w)"
    and "SSH_CONNECTION_CACHE w' = (SSH_CONNECTION_CACHE w)(cache_key_of (host c) (user c) \<mapsto> next_handle w)"
    and "\<exists>a k. Handshake (next_handle w) (host c) (user c) a k \<in> set (trace w')"
    and "host c' = host c" and "user c' = user c"
proof -
  obtain c1 w1 r where u: "connect_uncached c w = (c1, w1, r)"
    by (cases "connect_uncached c w") auto
  from assms u obtain h where r: "r = Inr h"
    by (cases r) (auto simp: connect_def)
  note ok = connect_uncached_ok [OF u [unfolded r]]
  have c': "c' = c1\<lparr>ssh := Some h\<rparr>"
    and w': "w' = w1\<lparr>SSH_CONNECTION_CACHE := (SSH_CONNECTION_CACHE w1)(cache_key_of (host c) (user c) \<mapsto> h)\<rparr>"
    using assms u r by (auto simp: connect_def)
  show "ssh c' = Some (next_handle w)" using c' ok(1) by simp
  show "next_handle w' = Suc (next_handle w)" using w' ok(2) by simp
  show "SSH_CONNECTION_CACHE w' = (SSH_CONNECTION_CACHE w)(cache_key_of (host c) (user c) \<mapsto> next_handle w)"
    using w' ok(1,5) by simp
  show "\<exists>a k. Handshake (next_handle w) (host c) (user c) a k \<in> set (trace w')"
    using w' ok(1,6) by simp
  show "host c' = host c" "user c' = user c" using c' ok(3,4) by simp_all
qed



lemma connect_ok:
  assumes "connect c w = (c', w', Inr ())"
      and "\<forall>k h. SSH_CONNECTION_CACHE w k = Some h \<longrightarrow> h < next_handle w"
  shows "\<exists>h. ssh c' = Some h \<and> h < next_handle w'
             \<and> SSH_CONNECTION_CACHE w' (cache_key_of (host c) (user c)) = Some h"
    and "host c' = host c" and "user c' = user c"
proof -
  let ?k = "cache_key_of (host c) (user c)"
  have "(\<exists>h. ssh c' = Some h \<and> h < next_handle w' \<and> SSH_CONNECTION_CACHE w' ?k = Some h)
        \<and> host c' = host c \<and> user c' = user c"
  proof (cases "SSH_CONNECTION_CACHE w ?k")
    case (Some h)
    with assms show ?thesis by (auto simp: connect_hit)
  next
    case None
    note m = connect_miss [OF None assms(1)]
    show ?thesis using m(1,2,3,5,6) by simp
  qed
  then show "\<exists>h. ssh c' = Some h \<and> h < next_handle w'
             \<and> SSH_CONNECTION_CACHE w' (cache_key_of (host c) (user c)) = Some h"
    and "host c' = host c" and "user c' = user c"
    by blast+
qed


lemma w1_eval:
  "connect fresh start_world =
     (deploy,
      start_world\<lparr>SSH_CONNECTION_CACHE := [''web1__deploy__'' \<mapsto> 0],
        clients := (clients start_world)(0 := \<lparr>host_keys = [], system_host_keys = [], host_keys_filename = None\<rparr>),
        next_handle := Suc 0,
        trace := [Vvv ''ESTABLISH CONNECTION FOR USER: deploy on PORT 22 TO web1'',
                  Handshake 0 ''web1'' ''deploy'' True None]\<rparr>,
      Inr ())"
  by (simp add: connect_def connect_uncached_def fresh_def init_connection_def deploy_def
        start_world_def cache_key_of_def emit_def load_system_host_keys_def expanduser_def
        truthy_def Let_def)


lemma world1_eq:
  "world1 = start_world\<lparr>SSH_CONNECTION_CACHE := [''web1__deploy__'' \<mapsto> 0],
        clients := (clients start_world)(0 := \<lparr>host_keys = [], system_host_keys = [], host_keys_filename = None\<rparr>),
        next_handle := Suc 0,
        trace := [Vvv ''ESTABLISH CONNECTION FOR USER: deploy on PORT 22 TO web1'',
                  Handshake 0 ''web1'' ''deploy'' True None]\<rparr>"
  by (simp add: world1_def w1_eval)





section \<open>File transfer\<close>

text \<open>
  Claim C8. When the local source does not exist, \<^verbatim>\<open>put_file\<close> raises \<^verbatim>\<open>AnsibleFileNotFound\<close>
  and has done nothing but write the log line: the connection object is unchanged, no
  file-transfer channel was opened and no handle was made.
\<close>

theorem put_file_missing_source:
  assumes "\<not> path_exists w in_path"
  shows "put_file self in_path out_path w =
           (self, emit (Vvv (''PUT '' @ in_path @ '' TO '' @ out_path)) w,
            Inl (AnsibleFileNotFound (''file or module does not exist: '' @ in_path)))
       \<and> filter opens_sftp (trace (fst (snd (put_file self in_path out_path w))))
           = filter opens_sftp (trace w)
       \<and> next_handle (fst (snd (put_file self in_path out_path w))) = next_handle w"
  using assms by (simp add: put_file_def path_exists_def emit_def Let_def)

theorem put_file_missing_source_witness:
  "\<not> path_exists world1 ''/tmp/src''
   \<and> put_file deploy ''/tmp/src'' ''/tmp/dst'' world1 =
       (deploy, emit (Vvv ''PUT /tmp/src TO /tmp/dst'') world1,
        Inl (AnsibleFileNotFound ''file or module does not exist: /tmp/src''))"
proof -
  have a: "\<not> path_exists world1 ''/tmp/src''"
    by (simp add: world1_eq path_exists_def start_world_def)
  show ?thesis
    using put_file_missing_source [OF a, of deploy "''/tmp/dst''"] a by simp
qed

text \<open>
  Claim C7 fails for \<^verbatim>\<open>put_file\<close>: it calls \<^verbatim>\<open>self.ssh.open_sftp()\<close> itself and never looks into
  the cache. Two \<^verbatim>\<open>put_file\<close> in a row open two channels and leave the cache empty; two
  \<^verbatim>\<open>fetch_file\<close> in a row, through \<^verbatim>\<open>_connect_sftp\<close>, open one and reuse it.
\<close>

theorem put_file_opens_a_channel_each_time:
  "snd (snd first_put) = Inr () \<and> snd (snd second_put) = Inr ()
   \<and> filter opens_sftp (trace (fst (snd second_put))) = [OpenSftp 0 1, OpenSftp 0 2]
   \<and> SFTP_CONNECTION_CACHE (fst (snd second_put)) = Map.empty
   \<and> snd (snd first_fetch) = Inr () \<and> snd (snd second_fetch) = Inr ()
   \<and> filter opens_sftp (trace (fst (snd second_fetch))) = [OpenSftp 0 1]
   \<and> SFTP_CONNECTION_CACHE (fst (snd second_fetch)) ''web1__deploy__'' = Some 1"
proof -
  have p1: "first_put =
     (deploy\<lparr>sftp := Some 1\<rparr>,
      source_world\<lparr>next_handle := 2,
         trace := trace source_world @ [Vvv ''PUT /tmp/src TO /tmp/dst'', OpenSftp 0 1,
                    SftpPut 1 ''/tmp/src'' ''/tmp/dst'']\<rparr>, Inr ())"
    by (simp add: first_put_def put_file_def source_world_def world1_eq start_world_def
          deploy_def path_exists_def client_open_sftp_def emit_def Let_def)
  have p2: "second_put =
     (deploy\<lparr>sftp := Some 2\<rparr>,
      source_world\<lparr>next_handle := 3,
         trace := trace source_world @ [Vvv ''PUT /tmp/src TO /tmp/dst'', OpenSftp 0 1,
                    SftpPut 1 ''/tmp/src'' ''/tmp/dst'', Vvv ''PUT /tmp/src TO /tmp/dst'',
                    OpenSftp 0 2, SftpPut 2 ''/tmp/src'' ''/tmp/dst'']\<rparr>, Inr ())"
    unfolding second_put_def p1
    by (simp add: put_file_def source_world_def world1_eq start_world_def
          deploy_def path_exists_def client_open_sftp_def emit_def Let_def)
  have f1: "first_fetch =
     (deploy\<lparr>sftp := Some 1\<rparr>,
      source_world\<lparr>next_handle := 2,
         SFTP_CONNECTION_CACHE := [''web1__deploy__'' \<mapsto> 1],
         trace := trace source_world @ [Vvv ''FETCH /tmp/dst TO /tmp/src'', OpenSftp 0 1,
                    SftpGet 1 ''/tmp/dst'' ''/tmp/src'']\<rparr>, Inr ())"
    by (simp add: first_fetch_def fetch_file_def connect_sftp_def connect_def source_world_def
          world1_eq start_world_def cache_key_of_def
          deploy_def client_open_sftp_def emit_def Let_def)
  have f2: "second_fetch =
     (deploy\<lparr>sftp := Some 1\<rparr>,
      source_world\<lparr>next_handle := 2,
         SFTP_CONNECTION_CACHE := [''web1__deploy__'' \<mapsto> 1],
         trace := trace source_world @ [Vvv ''FETCH /tmp/dst TO /tmp/src'', OpenSftp 0 1,
                    SftpGet 1 ''/tmp/dst'' ''/tmp/src'', Vvv ''FETCH /tmp/dst TO /tmp/src'',
                    SftpGet 1 ''/tmp/dst'' ''/tmp/src'']\<rparr>, Inr ())"
    unfolding second_fetch_def f1
    by (simp add: fetch_file_def connect_sftp_def connect_def source_world_def
          world1_eq start_world_def cache_key_of_def
          deploy_def client_open_sftp_def emit_def Let_def)
  show ?thesis
    unfolding p1 p2 f1 f2
    by (simp add: source_world_def world1_eq start_world_def)
qed

section \<open>Two pairs, one key\<close>

lemma colliding_pairs_share:
  "ssh (fst (connect one_pair start_world)) = Some 0
   \<and> connect other_pair (fst (snd (connect one_pair start_world)))
       = (other_pair\<lparr>ssh := Some 0\<rparr>, fst (snd (connect one_pair start_world)), Inr ())"
proof -
  have k: "cache_key_of (host other_pair) (user other_pair) = cache_key_of (host one_pair) (user one_pair)"
    by (simp add: other_pair_def one_pair_def init_connection_def cache_key_of_def)
  have e: "fst (connect one_pair start_world) = one_pair\<lparr>ssh := Some 0, keyfile := Some ''/home/u/.ssh/known_hosts''\<rparr>"
     "snd (snd (connect one_pair start_world)) = Inr ()"
    by (simp_all add: connect_def connect_uncached_def one_pair_def init_connection_def deploy_def
        start_world_def cache_key_of_def emit_def load_system_host_keys_def expanduser_def
        truthy_def Let_def)
  then have c: "connect one_pair start_world =
      (one_pair\<lparr>ssh := Some 0, keyfile := Some ''/home/u/.ssh/known_hosts''\<rparr>,
       fst (snd (connect one_pair start_world)), Inr ())"
    by (simp add: prod_eq_iff)
  have inv: "\<forall>k h. SSH_CONNECTION_CACHE start_world k = Some h \<longrightarrow> h < next_handle start_world"
    by (simp add: start_world_def)
  from connect_ok(1) [OF c inv]
  have "SSH_CONNECTION_CACHE (fst (snd (connect one_pair start_world)))
          (cache_key_of (host other_pair) (user other_pair)) = Some 0"
    by (simp add: k)
  from connect_hit [OF this] e show ?thesis by simp
qed

text \<open>
  Claim C10. The cache key derived from (host, user) is not injective: host \<open>a__b\<close> with
  user \<open>c\<close> and host \<open>a\<close> with user \<open>b__c\<close> are two different pairs with one and the
  same key, and once the first pair is connected, \<^verbatim>\<open>connect\<close> for the second returns the
  first pair's session, without a handshake.
\<close>

theorem cache_key_not_injective:
  "cache_key_of ''a__b'' ''c'' = cache_key_of ''a'' ''b__c''
   \<and> (''a__b'', ''c'') \<noteq> (''a'', ''b__c'')
   \<and> \<not> inj (\<lambda>(h, u). cache_key_of h u)
   \<and> (host one_pair, user one_pair) = (''a__b'', ''c'')
   \<and> (host other_pair, user other_pair) = (''a'', ''b__c'')
   \<and> ssh (fst (connect one_pair start_world)) = Some 0
   \<and> connect other_pair (fst (snd (connect one_pair start_world)))
       = (other_pair\<lparr>ssh := Some 0\<rparr>, fst (snd (connect one_pair start_world)), Inr ())"
  using cache_key_collision colliding_pairs_share
  by (simp add: one_pair_def other_pair_def init_connection_def)

section \<open>The prompt scanner\<close>

lemma prompt_reached_now:
  "suffix p out \<Longrightarrow> prompt_reached p out script out' rest \<longleftrightarrow> out' = out \<and> rest = script"
proof
  assume s: "suffix p out" and "prompt_reached p out script out' rest"
  then obtain chunks where c: "script = map Recv chunks @ rest" "out' = out @ concat chunks"
    "\<forall>n < length chunks. \<not> suffix p (out @ concat (take n chunks))"
    unfolding prompt_reached_def by blast
  have "chunks = []"
  proof (rule ccontr)
    assume "chunks \<noteq> []"
    then have "0 < length chunks" by simp
    with c(3) have "\<not> suffix p (out @ concat (take 0 chunks))" by blast
    with s show False by simp
  qed
  with c show "out' = out \<and> rest = script" by simp
next
  assume s: "suffix p out" and "out' = out \<and> rest = script"
  then show "prompt_reached p out script out' rest"
    unfolding prompt_reached_def by (intro exI [of _ "[]"]) simp
qed

lemma prompt_reached_Nil:
  "\<not> suffix p out \<Longrightarrow> \<not> prompt_reached p out [] out' rest"
  unfolding prompt_reached_def by auto

lemma prompt_reached_Timeout:
  "\<not> suffix p out \<Longrightarrow> \<not> prompt_reached p out (RecvTimeout # rs) out' rest"
proof
  assume n: "\<not> suffix p out" and "prompt_reached p out (RecvTimeout # rs) out' rest"
  then obtain chunks where c: "RecvTimeout # rs = map Recv chunks @ rest"
    "out' = out @ concat chunks" "suffix p out'"
    unfolding prompt_reached_def by blast
  show False
  proof (cases chunks)
    case Nil
    with c n show False by simp
  next
    case (Cons a as)
    with c show False by simp
  qed
qed

lemma prompt_reached_Recv:
  assumes "\<not> suffix p out"
  shows "prompt_reached p out (Recv c # rs) out' rest \<longleftrightarrow>
           c \<noteq> [] \<and> prompt_reached p (out @ c) rs out' rest"
proof
  assume "prompt_reached p out (Recv c # rs) out' rest"
  then obtain chunks where c: "Recv c # rs = map Recv chunks @ rest" "[] \<notin> set chunks"
    "out' = out @ concat chunks" "suffix p out'"
    "\<forall>n < length chunks. \<not> suffix p (out @ concat (take n chunks))"
    unfolding prompt_reached_def by blast
  from c assms obtain cs where cs: "chunks = c # cs"
    by (cases chunks) auto
  have "\<forall>n < length cs. \<not> suffix p ((out @ c) @ concat (take n cs))"
  proof (intro allI impI)
    fix n assume "n < length cs"
    then have "Suc n < length chunks" by (simp add: cs)
    with c(5) have "\<not> suffix p (out @ concat (take (Suc n) chunks))" by blast
    then show "\<not> suffix p ((out @ c) @ concat (take n cs))" by (simp add: cs)
  qed
  with c cs show "c \<noteq> [] \<and> prompt_reached p (out @ c) rs out' rest"
    unfolding prompt_reached_def by (intro conjI exI [of _ cs]) auto
next
  assume "c \<noteq> [] \<and> prompt_reached p (out @ c) rs out' rest"
  then obtain cs where c: "c \<noteq> []" "rs = map Recv cs @ rest" "[] \<notin> set cs"
    "out' = (out @ c) @ concat cs" "suffix p out'"
    "\<forall>n < length cs. \<not> suffix p ((out @ c) @ concat (take n cs))"
    unfolding prompt_reached_def by blast
  have "\<forall>n < length (c # cs). \<not> suffix p (out @ concat (take n (c # cs)))"
  proof (intro allI impI)
    fix n assume n: "n < length (c # cs)"
    show "\<not> suffix p (out @ concat (take n (c # cs)))"
    proof (cases n)
      case 0
      with assms show ?thesis by simp
    next
      case (Suc m)
      with n have "m < length cs" by simp
      with c(6) have "\<not> suffix p ((out @ c) @ concat (take m cs))" by blast
      with Suc show ?thesis by simp
    qed
  qed
  with c show "prompt_reached p out (Recv c # rs) out' rest"
    unfolding prompt_reached_def by (intro exI [of _ "c # cs"]) auto
qed

lemma sudo_wait_satisfied_iff:
  "sudo_wait u p out script = Some (Satisfied out' rest) \<longleftrightarrow> prompt_reached p out script out' rest"
proof (induction script arbitrary: out)
  case Nil
  show ?case
  proof (cases "suffix p out")
    case True
    then show ?thesis by (auto simp: prompt_reached_now)
  next
    case False
    then show ?thesis by (simp add: prompt_reached_Nil)
  qed
next
  case (Cons r rs)
  show ?case
  proof (cases "suffix p out")
    case True
    then show ?thesis by (auto simp: prompt_reached_now)
  next
    case False
    show ?thesis
    proof (cases r)
      case RecvTimeout
      with False show ?thesis by (simp add: prompt_reached_Timeout)
    next
      case (Recv c)
      with False Cons.IH [of "out @ c"] show ?thesis
        by (simp add: prompt_reached_Recv)
    qed
  qed
qed

lemma sudo_wait_closed:
  assumes "[] \<notin> set chunks"
      and "\<forall>n \<le> length chunks. \<not> suffix p (out @ concat (take n chunks))"
  shows "sudo_wait u p out (map Recv chunks @ Recv [] # rest) =
           Some (Raised (AnsibleError
             (if sublist ''unknown user'' (out @ concat chunks)
              then ''user '' @ u @ '' does not exist''
              else ''ssh connection closed waiting for password prompt'')))"
  using assms
proof (induction chunks arbitrary: out)
  case Nil
  then show ?case by simp
next
  case (Cons c cs)
  have n0: "\<not> suffix p out" using Cons.prems(2) [rule_format, of 0] by simp
  have "\<forall>n \<le> length cs. \<not> suffix p ((out @ c) @ concat (take n cs))"
  proof (intro allI impI)
    fix n assume "n \<le> length cs"
    then have "Suc n \<le> length (c # cs)" by simp
    with Cons.prems(2) have "\<not> suffix p (out @ concat (take (Suc n) (c # cs)))" by blast
    then show "\<not> suffix p ((out @ c) @ concat (take n cs))" by simp
  qed
  moreover have "c \<noteq> []" "[] \<notin> set cs" using Cons.prems(1) by auto
  ultimately show ?case using Cons.IH [of "out @ c"] n0 by simp
qed


lemma sudo_exchange_cases:
  assumes "truthy (sudo_pass (runner self))"
  shows "sudo_exchange self u shcmd p chan w =
     (case sudo_wait u p [] (recv_script chan) of
        None \<Rightarrow> None
      | Some (Satisfied out rest) \<Rightarrow>
          Some (emit (Sendall (the (sudo_pass (runner self)) @ [CHR 0x0A])) (emit (ExecCommand shcmd) w), Inr ())
      | Some (Raised e) \<Rightarrow> Some (emit (ExecCommand shcmd) w, Inl e)
      | Some (SocketTimeout out) \<Rightarrow>
          Some (emit (ExecCommand shcmd) w,
                Inl (AnsibleError (''ssh timed out waiting for sudo.'' @ [CHR 0x0A] @ out))))"
  using assms by (simp add: sudo_exchange_def Let_def)

text \<open>
  Claim C2. In the elevation branch with a secret configured, the secret and a newline are
  written to the channel exactly when the accumulated output, after some number of
  non-empty reads, ends with the prompt; in every other case the loop is still waiting or
  the call fails, and nothing is written after the command. An occurrence of the prompt
  that is not at the end of the accumulated output does not count.
\<close>

theorem secret_sent_exactly_at_trailing_prompt:
  assumes "truthy (sudo_pass (runner self))"
  shows "((\<exists>out rest. prompt_reached prompt [] (recv_script chan) out rest) \<longrightarrow>
            sudo_exchange self sudo_user shcmd prompt chan w =
              Some (emit (Sendall (the (sudo_pass (runner self)) @ [CHR 0x0A]))
                      (emit (ExecCommand shcmd) w), Inr ()))
       \<and> (\<not> (\<exists>out rest. prompt_reached prompt [] (recv_script chan) out rest) \<longrightarrow>
            sudo_exchange self sudo_user shcmd prompt chan w = None
          \<or> (\<exists>e. sudo_exchange self sudo_user shcmd prompt chan w =
                    Some (emit (ExecCommand shcmd) w, Inl e)))"
proof (intro conjI impI)
  assume "\<exists>out rest. prompt_reached prompt [] (recv_script chan) out rest"
  then obtain out rest where "sudo_wait sudo_user prompt [] (recv_script chan) = Some (Satisfied out rest)"
    using sudo_wait_satisfied_iff by blast
  then show "sudo_exchange self sudo_user shcmd prompt chan w =
              Some (emit (Sendall (the (sudo_pass (runner self)) @ [CHR 0x0A]))
                      (emit (ExecCommand shcmd) w), Inr ())"
    by (simp add: sudo_exchange_cases [OF assms])
next
  assume n: "\<not> (\<exists>out rest. prompt_reached prompt [] (recv_script chan) out rest)"
  show "sudo_exchange self sudo_user shcmd prompt chan w = None
          \<or> (\<exists>e. sudo_exchange self sudo_user shcmd prompt chan w =
                    Some (emit (ExecCommand shcmd) w, Inl e))"
  proof (cases "sudo_wait sudo_user prompt [] (recv_script chan)")
    case None
    then show ?thesis by (simp add: sudo_exchange_cases [OF assms])
  next
    case (Some res)
    show ?thesis
    proof (cases res)
      case (Satisfied out rest)
      with Some n sudo_wait_satisfied_iff show ?thesis by blast
    next
      case (Raised e)
      with Some show ?thesis by (simp add: sudo_exchange_cases [OF assms])
    next
      case (SocketTimeout out)
      with Some show ?thesis by (simp add: sudo_exchange_cases [OF assms])
    qed
  qed
qed

theorem secret_sent_exactly_at_trailing_prompt_witness:
  "truthy (sudo_pass (runner deploy))
   \<and> sudo_exchange deploy ''root'' ''sudo ls'' ''password: '' prompting start_world =
       Some (start_world\<lparr>trace := [ExecCommand ''sudo ls'', Sendall (''secret'' @ [CHR 0x0A])]\<rparr>, Inr ())
   \<and> sudo_exchange deploy ''root'' ''sudo ls'' ''password: '' not_trailing start_world =
       Some (start_world\<lparr>trace := [ExecCommand ''sudo ls'']\<rparr>,
             Inl (AnsibleError ''ssh connection closed waiting for password prompt''))"
proof -
  have t: "truthy (sudo_pass (runner deploy))"
    by (simp add: deploy_def truthy_def)
  have "prompt_reached ''password: '' [] (recv_script prompting) ''[sudo] password: '' [Recv ''never read'']"
    unfolding prompt_reached_def
    by (intro exI [of _ "[''[sudo] pass'', ''word: '']"]) (simp add: prompting_def less_Suc_eq suffix_def)
  then have r: "\<exists>out rest. prompt_reached ''password: '' [] (recv_script prompting) out rest"
    by blast
  have s: "sudo_exchange deploy ''root'' ''sudo ls'' ''password: '' not_trailing start_world =
       Some (start_world\<lparr>trace := [ExecCommand ''sudo ls'']\<rparr>,
             Inl (AnsibleError ''ssh connection closed waiting for password prompt''))"
    by (simp add: sudo_exchange_def not_trailing_def deploy_def truthy_def emit_def start_world_def
          suffix_to_prefix sublist_code Let_def)
  show ?thesis
    using secret_sent_exactly_at_trailing_prompt [OF t, of "''password: ''" prompting "''root''" "''sudo ls''" start_world] r t s
    by (simp add: deploy_def emit_def start_world_def)
qed

section \<open>Running a command with elevation\<close>

lemma exec_command_sudo:
  assumes "sudo (runner self)" and "sudoable" and "ssh self = Some h"
      and "open_session w h = Inr chan"
      and "getenv_int w ''COLUMNS'' = Inr width" and "getenv_int w ''LINES'' = Inr height"
      and "make_sudo_cmd w sudo_user executable cmd = (shcmd, prompt)"
  shows "exec_command self cmd tmp_path sudo_user sudoable executable w =
           (case sudo_exchange self sudo_user shcmd prompt chan (pty_opened self h width height shcmd w) of
              None \<Rightarrow> None
            | Some (w4, Inl e) \<Rightarrow> Some (w4, Inl e)
            | Some (w4, Inr _) \<Rightarrow>
                Some (w4, Inr (chan_exit_status chan, [], chan_stdout chan, chan_stderr chan)))"
  using assms by (simp add: exec_command_def pty_opened_def Let_def)


text \<open>
  Claim C3. In the elevation branch with a secret configured, when a read returns no bytes
  and the accumulated output has not ended with the prompt at any test before, the call
  fails: with \<open>user ... does not exist\<close> if the output accumulated so far contains
  \<open>unknown user\<close>, and with \<open>ssh connection closed waiting for password prompt\<close> otherwise.
\<close>

theorem closed_before_prompt_fails:
  assumes "sudo (runner self)" and "sudoable" and "ssh self = Some h"
      and "open_session w h = Inr chan"
      and "getenv_int w ''COLUMNS'' = Inr width" and "getenv_int w ''LINES'' = Inr height"
      and "make_sudo_cmd w sudo_user executable cmd = (shcmd, prompt)"
      and "truthy (sudo_pass (runner self))"
      and "recv_script chan = map Recv chunks @ Recv [] # rest"
      and "[] \<notin> set chunks"
      and "\<forall>n \<le> length chunks. \<not> suffix prompt (concat (take n chunks))"
  shows "exec_command self cmd tmp_path sudo_user sudoable executable w =
           Some (emit (ExecCommand shcmd) (pty_opened self h width height shcmd w),
                 Inl (AnsibleError
                        (if sublist ''unknown user'' (concat chunks)
                         then ''user '' @ sudo_user @ '' does not exist''
                         else ''ssh connection closed waiting for password prompt'')))"
proof -
  have "sudo_wait sudo_user prompt [] (recv_script chan) =
          Some (Raised (AnsibleError
             (if sublist ''unknown user'' ([] @ concat chunks)
              then ''user '' @ sudo_user @ '' does not exist''
              else ''ssh connection closed waiting for password prompt'')))"
    unfolding assms(9) using assms(10,11) by (intro sudo_wait_closed) simp_all
  then show ?thesis
    unfolding exec_command_sudo [OF assms(1-7)] sudo_exchange_cases [OF assms(8)]
    by simp
qed

theorem closed_before_prompt_fails_witness:
  "exec_command deploy ''ls'' ''/tmp'' ''nobody'' True ''/bin/sh''
       (start_world\<lparr>open_session := (\<lambda>_. Inr unknown_user)\<rparr>) =
     Some (start_world\<lparr>open_session := (\<lambda>_. Inr unknown_user),
             trace := [OpenSession 0, GetPty ''vt100'' 0 0, Vvv ''EXEC ls'', ExecCommand ''ls'']\<rparr>,
           Inl (AnsibleError ''user nobody does not exist''))
   \<and> exec_command deploy ''ls'' ''/tmp'' ''root'' True ''/bin/sh''
       (start_world\<lparr>open_session := (\<lambda>_. Inr not_trailing)\<rparr>) =
     Some (start_world\<lparr>open_session := (\<lambda>_. Inr not_trailing),
             trace := [OpenSession 0, GetPty ''vt100'' 0 0, Vvv ''EXEC ls'', ExecCommand ''ls'']\<rparr>,
           Inl (AnsibleError ''ssh connection closed waiting for password prompt''))"
proof -
  let ?w = "start_world\<lparr>open_session := (\<lambda>_. Inr unknown_user)\<rparr>"
  let ?v = "start_world\<lparr>open_session := (\<lambda>_. Inr not_trailing)\<rparr>"
  have a: "sudo (runner deploy)" "True" "ssh deploy = Some 0" "truthy (sudo_pass (runner deploy))"
    by (simp_all add: deploy_def truthy_def)
  have w: "open_session ?w 0 = Inr unknown_user" "getenv_int ?w ''COLUMNS'' = Inr 0"
    "getenv_int ?w ''LINES'' = Inr 0" "make_sudo_cmd ?w ''nobody'' ''/bin/sh'' ''ls'' = (''ls'', ''password: '')"
    by (simp_all add: start_world_def getenv_int_def)
  have v: "open_session ?v 0 = Inr not_trailing" "getenv_int ?v ''COLUMNS'' = Inr 0"
    "getenv_int ?v ''LINES'' = Inr 0" "make_sudo_cmd ?v ''root'' ''/bin/sh'' ''ls'' = (''ls'', ''password: '')"
    by (simp_all add: start_world_def getenv_int_def)
  have s1: "recv_script unknown_user = map Recv [''sudo: unknown'', '' user: nobody''] @ Recv [] # []"
    by (simp add: unknown_user_def)
  have s2: "recv_script not_trailing = map Recv [''password: please'', ''pass''] @ Recv [] # []"
    by (simp add: not_trailing_def)
  have n1: "[] \<notin> set [''sudo: unknown'', '' user: nobody'']"
    and n2: "[] \<notin> set [''password: please'', ''pass'']"
    by simp_all
  have p1: "\<forall>n \<le> length [''sudo: unknown'', '' user: nobody''].
              \<not> suffix ''password: '' (concat (take n [''sudo: unknown'', '' user: nobody'']))"
    by (simp add: le_Suc_eq suffix_to_prefix all_conj_distrib)
  have p2: "\<forall>n \<le> length [''password: please'', ''pass''].
              \<not> suffix ''password: '' (concat (take n [''password: please'', ''pass'']))"
    by (simp add: le_Suc_eq suffix_to_prefix all_conj_distrib)
  have u1: "sublist ''unknown user'' (concat [''sudo: unknown'', '' user: nobody''])"
    by code_simp
  have u2: "\<not> sublist ''unknown user'' (concat [''password: please'', ''pass''])"
    by code_simp
  show ?thesis
    using closed_before_prompt_fails [OF a(1,2,3) w a(4) s1 n1 p1, of "''/tmp''"]
          closed_before_prompt_fails [OF a(1,2,3) v a(4) s2 n2 p2, of "''/tmp''"] u1 u2
    by (simp add: pty_opened_def emit_def start_world_def)
qed




end
